theory Spec2Isabelle
  imports Complex_Main
begin

section \<open>The Ising simulation of Classwork/12.2.ipynb\<close>

text \<open>
  The class \<open>IsingSimulation\<close> owns a square numpy array of integer spins, a temperature
  and a step counter. The array is a list of rows, Python's unbounded integers are
  \<open>int\<close>, and the floating-point quantities (the two constants, the temperature, the
  energies and the uniform draw) are real numbers: rounding to the nearest double is not
  modelled. One effect of the doubles is: the product \<open>temperature * kB\<close>, the only
  one here that can be too small for a double, is zero where it underflows. A
  temperature is a finite real number; the reals have one zero, which stands for the
  double \<open>0.0\<close>. The three random draws of one update (two cell indices and one uniform
  number) and the draws of the initial lattice are arguments of the model.
\<close>

subsection \<open>Errors and the object\<close>

datatype error = ValueError | IndexError

definition thenE :: "error + 'a \<Rightarrow> ('a \<Rightarrow> error + 'b) \<Rightarrow> error + 'b" where
  "thenE r f = (case r of Inl e \<Rightarrow> Inl e | Inr v \<Rightarrow> f v)"

record sim =
  size_sim :: int
  temperature :: real
  state :: "int list list"
  step :: int

text \<open>The class attributes: \<open>J = 6.34369e-21\<close> and \<open>kB = 1.38065e-23\<close>.\<close>

definition J :: real where
  "J = 634369 / 10 ^ 26"

definition kB :: real where
  "kB = 138065 / 10 ^ 28"

subsection \<open>Construction and the temperature\<close>

text \<open>
  \<open>scipy.random.choice([-1, +1], size=(size, size))\<close> draws every cell from the two
  values; \<open>pick a b\<close> says whether the draw for cell \<open>(a, b)\<close> selected \<open>+1\<close>. numpy
  refuses a negative dimension with a ValueError, and the constructor checks nothing
  else. A caller that leaves the temperature out gets \<open>300\<close>.
\<close>

definition choice :: "nat \<Rightarrow> (nat \<Rightarrow> nat \<Rightarrow> bool) \<Rightarrow> int list list" where
  "choice n pick = map (\<lambda>a. map (\<lambda>b. if pick a b then 1 else - 1) [0..<n]) [0..<n]"

definition init :: "int \<Rightarrow> real \<Rightarrow> (nat \<Rightarrow> nat \<Rightarrow> bool) \<Rightarrow> error + sim" where
  "init n t pick =
     (if n < 0 then Inl ValueError
      else Inr \<lparr>size_sim = n, temperature = t, state = choice (nat n) pick, step = 0\<rparr>)"

text \<open>\<open>self.temperature = float(temp)\<close>: on a number, \<open>float\<close> changes nothing here.\<close>

definition set_temperature :: "sim \<Rightarrow> real \<Rightarrow> sim" where
  "set_temperature s temp = s\<lparr>temperature := temp\<rparr>"

subsection \<open>Array operations\<close>

text \<open>
  \<open>numpy.roll(a, shift)\<close> along one axis moves every element \<open>shift\<close> places towards
  the end, those pushed out coming back at the front: the result at \<open>k\<close> is \<open>a\<close> at
  \<open>(k - shift) mod n\<close>. Along axis 0 of the lattice the rows are rolled, along axis 1
  the entries of each row.
\<close>

definition roll :: "int \<Rightarrow> 'a list \<Rightarrow> 'a list" where
  "roll shift xs =
     (if xs = [] then [] else rotate (nat ((- shift) mod int (length xs))) xs)"

definition roll_axis0 :: "int \<Rightarrow> int list list \<Rightarrow> int list list" where
  "roll_axis0 shift a = roll shift a"

definition roll_axis1 :: "int \<Rightarrow> int list list \<Rightarrow> int list list" where
  "roll_axis1 shift a = map (roll shift) a"

definition add2 :: "int list list \<Rightarrow> int list list \<Rightarrow> int list list" where
  "add2 a b = map2 (map2 (+)) a b"

definition mul2 :: "int list list \<Rightarrow> int list list \<Rightarrow> int list list" where
  "mul2 a b = map2 (map2 (*)) a b"

definition sum2 :: "int list list \<Rightarrow> int" where
  "sum2 a = sum_list (map sum_list a)"

definition count2 :: "int list list \<Rightarrow> nat" where
  "count2 a = sum_list (map length a)"

text \<open>
  Reading \<open>a[i, j]\<close>: numpy counts a negative index from the end and raises an
  IndexError outside \<open>-n \<le> i < n\<close>.
\<close>

definition norm_index :: "int \<Rightarrow> nat \<Rightarrow> error + nat" where
  "norm_index i n =
     (if 0 \<le> i \<and> i < int n then Inr (nat i)
      else if - int n \<le> i \<and> i < 0 then Inr (nat (i + int n))
      else Inl IndexError)"

definition getitem :: "int list list \<Rightarrow> int \<Rightarrow> int \<Rightarrow> error + int" where
  "getitem a i j =
     thenE (norm_index i (length a)) (\<lambda>r.
     thenE (norm_index j (length (a ! r))) (\<lambda>c.
     Inr (a ! r ! c)))"

definition setitem :: "int list list \<Rightarrow> int \<Rightarrow> int \<Rightarrow> int \<Rightarrow> error + int list list" where
  "setitem a i j v =
     thenE (norm_index i (length a)) (\<lambda>r.
     thenE (norm_index j (length (a ! r))) (\<lambda>c.
     Inr (a[r := (a ! r)[c := v]])))"

subsection \<open>The observables\<close>

text \<open>
  \<open>energy\<close> multiplies the lattice cell by cell with the sum of its two rolled copies,
  adds everything up in integers and scales the total by \<open>-J\<close>.
\<close>

definition energy_sum :: "int list list \<Rightarrow> int" where
  "energy_sum a = sum2 (mul2 a (add2 (roll_axis0 1 a) (roll_axis1 1 a)))"

definition energy :: "sim \<Rightarrow> real" where
  "energy s = - J * of_int (energy_sum (state s))"

text \<open>
  \<open>self.state.mean()\<close> divides the sum of the cells by their number; on an empty array
  numpy answers NaN, which is \<open>None\<close> here.
\<close>

definition average_magnetism :: "sim \<Rightarrow> real option" where
  "average_magnetism s =
     (if count2 (state s) = 0 then None
      else Some (of_int (sum2 (state s)) / of_int (int (count2 (state s)))))"

subsection \<open>One Metropolis trial\<close>

text \<open>
  \<open>delta_E\<close> reads the chosen cell and its four neighbours, the neighbour indices
  reduced with Python's \<open>%\<close> (the result has the sign of the divisor, as \<open>mod\<close> on
  \<open>int\<close>).
\<close>

definition delta_E :: "sim \<Rightarrow> int \<Rightarrow> int \<Rightarrow> error + real" where
  "delta_E s i j =
     thenE (getitem (state s) i j) (\<lambda>c.
     thenE (getitem (state s) ((i + 1) mod size_sim s) j) (\<lambda>n1.
     thenE (getitem (state s) ((i - 1) mod size_sim s) j) (\<lambda>n2.
     thenE (getitem (state s) i ((j + 1) mod size_sim s)) (\<lambda>n3.
     thenE (getitem (state s) i ((j - 1) mod size_sim s)) (\<lambda>n4.
     Inr (2 * J * of_int c * of_int (n1 + n2 + n3 + n4)))))))"

text \<open>
  The double \<open>self.temperature * self.kB\<close>. Doubles are rounded to the nearest, ties
  to the even one, and the smallest positive double is \<open>2 ^ -1074\<close>: a product of
  magnitude at most \<open>2 ^ -1075\<close> becomes a zero with the sign of the temperature. With
  \<open>kB\<close> as it is, this happens for temperatures of magnitude below about \<open>1.8e-301\<close>.
\<close>

definition underflows :: "real \<Rightarrow> bool" where
  "underflows temp = (\<bar>temp * kB\<bar> \<le> 1 / 2 ^ 1075)"

text \<open>
  The test \<open>scipy.log(u) < log_p\<close> with \<open>log_p = -delta_E / (temperature * kB)\<close>.
  \<open>delta_E\<close> is a numpy float, so a zero denominator raises nothing. Over \<open>0.0\<close> the
  quotient is plus infinity for a negative \<open>delta_E\<close> (the test holds for every draw),
  NaN for zero and minus infinity for a positive one (the test fails); over \<open>-0.0\<close>,
  the product of a negative temperature, the two infinities change places. Otherwise
  the uniform draw decides: it lies in \<open>[0, 1)\<close>, and at \<open>u = 0\<close> the logarithm is minus
  infinity, below every finite \<open>log_p\<close>.
\<close>

definition accepts :: "real \<Rightarrow> real \<Rightarrow> real \<Rightarrow> bool" where
  "accepts temp dE u =
     (if underflows temp then
        (if temp < 0 then 0 < dE \<and> 0 \<le> u else dE < 0 \<and> 0 \<le> u)
      else if u < 0 then False
      else if u = 0 then True
      else ln u < - dE / (temp * kB))"

text \<open>
  \<open>update\<close>: \<open>randint(self.size, size=2)\<close> raises a ValueError unless the size is
  positive, and returns two indices \<open>i\<close>, \<open>j\<close> from \<open>0\<close> up to the size; \<open>u\<close> is the
  value of \<open>uniform(0, 1)\<close>.
\<close>

definition update :: "sim \<Rightarrow> int \<Rightarrow> int \<Rightarrow> real \<Rightarrow> error + sim" where
  "update s i j u =
     (if size_sim s \<le> 0 then Inl ValueError
      else
        thenE (delta_E s i j) (\<lambda>dE.
        thenE (if accepts (temperature s) dE u
               then thenE (getitem (state s) i j) (\<lambda>c. setitem (state s) i j (- c))
               else Inr (state s)) (\<lambda>a.
        Inr (s\<lparr>state := a, step := step s + 1\<rparr>))))"

subsection \<open>Sequences of calls\<close>

datatype call = Update int int real | Set_temperature real | Energy | Average_magnetism

datatype reply = Nothing | Number real | NaN

fun call_sim :: "sim \<Rightarrow> call \<Rightarrow> error + (sim \<times> reply)" where
  "call_sim s (Update i j u) = thenE (update s i j u) (\<lambda>s'. Inr (s', Nothing))"
| "call_sim s (Set_temperature t) = Inr (set_temperature s t, Nothing)"
| "call_sim s Energy = Inr (s, Number (energy s))"
| "call_sim s Average_magnetism =
     Inr (s, case average_magnetism s of None \<Rightarrow> NaN | Some m \<Rightarrow> Number m)"

fun run :: "sim \<Rightarrow> call list \<Rightarrow> error + sim" where
  "run s [] = Inr s"
| "run s (c # cs) = thenE (call_sim s c) (\<lambda>(s', r). run s' cs)"

subsection \<open>Well-formed objects\<close>

text \<open>
  \<open>spin a i j\<close> is the cell \<open>a[i, j]\<close> for indices inside the array. The array of an
  object is always \<open>size\<close> by \<open>size\<close>: the constructor makes it so and no method
  changes its shape.
\<close>

definition spin :: "int list list \<Rightarrow> int \<Rightarrow> int \<Rightarrow> int" where
  "spin a i j = a ! nat i ! nat j"

definition square :: "nat \<Rightarrow> int list list \<Rightarrow> bool" where
  "square n a = (length a = n \<and> (\<forall>row\<in>set a. length row = n))"

definition wf_sim :: "sim \<Rightarrow> bool" where
  "wf_sim s = (0 \<le> size_sim s \<and> square (nat (size_sim s)) (state s))"

text \<open>The data model of the specification: every cell is \<open>-1\<close> or \<open>+1\<close>.\<close>

definition spins_ok :: "int list list \<Rightarrow> bool" where
  "spins_ok a = (\<forall>row\<in>set a. \<forall>x\<in>set row. x = 1 \<or> x = - 1)"

text \<open>The lattice with the cell \<open>(i, j)\<close> negated and every other cell as it was.\<close>

definition flipped :: "int list list \<Rightarrow> int \<Rightarrow> int \<Rightarrow> int list list" where
  "flipped a i j = a[nat i := (a ! nat i)[nat j := - spin a i j]]"

text \<open>The sum of the four nearest neighbours of a cell on the torus.\<close>

definition neighbours :: "sim \<Rightarrow> int \<Rightarrow> int \<Rightarrow> int" where
  "neighbours s i j =
     spin (state s) ((i + 1) mod size_sim s) j + spin (state s) ((i - 1) mod size_sim s) j +
     spin (state s) i ((j + 1) mod size_sim s) + spin (state s) i ((j - 1) mod size_sim s)"

text \<open>
  The draws that \<open>randint\<close> and \<open>uniform\<close> can return for the calls of a sequence:
  indices from \<open>0\<close> up to the size, the uniform number in \<open>[0, 1)\<close>.
\<close>

fun draw_ok :: "int \<Rightarrow> call \<Rightarrow> bool" where
  "draw_ok n (Update i j u) = (0 \<le> i \<and> i < n \<and> 0 \<le> j \<and> j < n \<and> 0 \<le> u \<and> u < 1)"
| "draw_ok n c = True"

definition draws_ok :: "int \<Rightarrow> call list \<Rightarrow> bool" where
  "draws_ok n cs = (\<forall>c\<in>set cs. draw_ok n c)"

fun is_update :: "call \<Rightarrow> bool" where
  "is_update (Update i j u) = True"
| "is_update c = False"

text \<open>Draws for the initial lattice: all up, and alternating like a checkerboard.\<close>

definition all_up :: "nat \<Rightarrow> nat \<Rightarrow> bool" where
  "all_up a b = True"

definition checkerboard :: "nat \<Rightarrow> nat \<Rightarrow> bool" where
  "checkerboard a b = even (a + b)"

text \<open>Draws that give the lattice of \<open>sim_3x3\<close> below.\<close>

definition pick_3x3 :: "nat \<Rightarrow> nat \<Rightarrow> bool" where
  "pick_3x3 a b = (\<not> (a = 0 \<and> b = 1) \<and> \<not> (a = 2 \<and> b = 0))"

text \<open>
  The two lattices of the energy test: every cell \<open>+1\<close>, and \<open>+1\<close> exactly where the
  sum of the two indices is even.
\<close>

definition all_ones :: "sim \<Rightarrow> bool" where
  "all_ones s = (\<forall>i j. 0 \<le> i \<and> i < size_sim s \<and> 0 \<le> j \<and> j < size_sim s \<longrightarrow>
     spin (state s) i j = 1)"

definition alternating :: "sim \<Rightarrow> bool" where
  "alternating s = (\<forall>i j. 0 \<le> i \<and> i < size_sim s \<and> 0 \<le> j \<and> j < size_sim s \<longrightarrow>
     spin (state s) i j = (if even (i + j) then 1 else - 1))"

text \<open>Example objects.\<close>

definition sim_1x1 :: sim where
  "sim_1x1 = \<lparr>size_sim = 1, temperature = 300, state = [[1]], step = 0\<rparr>"

definition sim_3x3 :: sim where
  "sim_3x3 = \<lparr>size_sim = 3, temperature = 1043,
     state = [[1, - 1, 1], [1, 1, 1], [- 1, 1, 1]], step = 0\<rparr>"

definition sim_up :: sim where
  "sim_up = \<lparr>size_sim = 2, temperature = 300, state = [[1, 1], [1, 1]], step = 0\<rparr>"

definition sim_checkerboard :: sim where
  "sim_checkerboard = \<lparr>size_sim = 2, temperature = 300, state = [[1, - 1], [- 1, 1]], step = 0\<rparr>"


text \<open>\<open>sim_3x3\<close> at a temperature below zero, which the constructor accepts.\<close>

definition sim_3x3_below_zero :: sim where
  "sim_3x3_below_zero = \<lparr>size_sim = 3, temperature = - 1043,
     state = [[1, - 1, 1], [1, 1, 1], [- 1, 1, 1]], step = 0\<rparr>"

text \<open>
  \<open>sim_3x3\<close> after an accepted flip of the cell \<open>(0, 1)\<close>, and after one more trial
  that was rejected.
\<close>

definition sim_3x3_one :: sim where
  "sim_3x3_one = \<lparr>size_sim = 3, temperature = 1043,
     state = [[1, 1, 1], [1, 1, 1], [- 1, 1, 1]], step = 1\<rparr>"

definition sim_3x3_two :: sim where
  "sim_3x3_two = \<lparr>size_sim = 3, temperature = 1043,
     state = [[1, 1, 1], [1, 1, 1], [- 1, 1, 1]], step = 2\<rparr>"

definition calls_example :: "call list" where
  "calls_example =
     [Update 0 1 (1 / 2), Set_temperature 1043, Energy, Update 1 1 (1 / 2), Average_magnetism]"

section \<open>Sums over the lattice\<close>

lemma square_row: "square n a \<Longrightarrow> r < n \<Longrightarrow> length (a ! r) = n"
  by (simp add: square_def)

lemma sum_list_int_nth: "sum_list xs = (\<Sum>k\<in>{0..<int (length xs)}. xs ! nat k)"
proof -
  have "sum_list xs = (\<Sum>k = 0..<length xs. xs ! k)"
    by (rule sum_list_sum_nth)
  also have "\<dots> = (\<Sum>k\<in>{0..<int (length xs)}. xs ! nat k)"
    by (rule sum.reindex_bij_witness [where i = nat and j = int]) auto
  finally show ?thesis .
qed

lemma sum2_spin:
  assumes "square n a"
  shows "sum2 a = (\<Sum>i\<in>{0..<int n}. \<Sum>j\<in>{0..<int n}. spin a i j)"
proof -
  have len: "length a = n" using assms by (simp add: square_def)
  have "sum2 a = (\<Sum>i\<in>{0..<int n}. sum_list (a ! nat i))"
    unfolding sum2_def using sum_list_int_nth [of "map sum_list a"] len
    by (auto intro!: sum.cong)
  also have "\<dots> = (\<Sum>i\<in>{0..<int n}. \<Sum>j\<in>{0..<int n}. spin a i j)"
  proof (rule sum.cong)
    fix i assume "i \<in> {0..<int n}"
    then have "nat i < n"
      by auto
    then have "length (a ! nat i) = n"
      using assms by (rule square_row [rotated])
    then show "sum_list (a ! nat i) = (\<Sum>j\<in>{0..<int n}. spin a i j)"
      by (simp add: sum_list_int_nth spin_def)
  qed simp
  finally show ?thesis .
qed

lemma roll_nth:
  assumes "k < length xs"
  shows "roll 1 xs ! k = xs ! nat ((int k - 1) mod int (length xs))"
proof -
  let ?n = "length xs"
  have pos: "0 < ?n" using assms by (cases xs) simp_all
  have m: "nat ((- 1) mod int ?n) = ?n - 1"
    using pos by (simp add: zmod_minus1)
  have "int ((?n - 1 + k) mod ?n) = (int k - 1) mod int ?n"
  proof -
    have "int (?n - 1) = int ?n - 1"
      using pos by arith
    then have "int ((?n - 1 + k) mod ?n) = (int ?n - 1 + int k) mod int ?n"
      by (simp only: zmod_int of_nat_add)
    also have "\<dots> = (int k - 1 + int ?n) mod int ?n"
      by (simp add: algebra_simps)
    also have "\<dots> = (int k - 1) mod int ?n"
      by simp
    finally show ?thesis .
  qed
  then have "(?n - 1 + k) mod ?n = nat ((int k - 1) mod int ?n)"
    by linarith
  moreover have "xs \<noteq> []"
    using pos by simp
  ultimately show ?thesis
    using assms m by (simp add: roll_def nth_rotate)
qed

lemma length_roll: "length (roll shift xs) = length xs"
  by (simp add: roll_def)

lemma square_roll_axis0: "square n a \<Longrightarrow> square n (roll_axis0 1 a)"
  by (auto simp: square_def roll_axis0_def roll_def)

lemma square_roll_axis1: "square n a \<Longrightarrow> square n (roll_axis1 1 a)"
  by (auto simp: square_def roll_axis1_def length_roll)

lemma square_add2: "square n a \<Longrightarrow> square n b \<Longrightarrow> square n (add2 a b)"
  by (auto simp: square_def add2_def set_zip)

lemma square_mul2: "square n a \<Longrightarrow> square n b \<Longrightarrow> square n (mul2 a b)"
  by (auto simp: square_def mul2_def set_zip)

lemma spin_add2:
  "square n a \<Longrightarrow> square n b \<Longrightarrow> 0 \<le> i \<Longrightarrow> i < int n \<Longrightarrow> 0 \<le> j \<Longrightarrow> j < int n \<Longrightarrow>
     spin (add2 a b) i j = spin a i j + spin b i j"
  by (simp add: spin_def add2_def square_def)

lemma spin_mul2:
  "square n a \<Longrightarrow> square n b \<Longrightarrow> 0 \<le> i \<Longrightarrow> i < int n \<Longrightarrow> 0 \<le> j \<Longrightarrow> j < int n \<Longrightarrow>
     spin (mul2 a b) i j = spin a i j * spin b i j"
  by (simp add: spin_def mul2_def square_def)

lemma spin_roll_axis0:
  "square n a \<Longrightarrow> 0 \<le> i \<Longrightarrow> i < int n \<Longrightarrow>
     spin (roll_axis0 1 a) i j = spin a ((i - 1) mod int n) j"
  by (simp add: spin_def roll_axis0_def square_def roll_nth)

lemma spin_roll_axis1:
  "square n a \<Longrightarrow> 0 \<le> i \<Longrightarrow> i < int n \<Longrightarrow> 0 \<le> j \<Longrightarrow> j < int n \<Longrightarrow>
     spin (roll_axis1 1 a) i j = spin a i ((j - 1) mod int n)"
  by (simp add: spin_def roll_axis1_def square_def roll_nth)

text \<open>The sum that the roll-based expression computes, cell by cell.\<close>

lemma energy_sum_spin:
  assumes "square n a"
  shows "energy_sum a =
    (\<Sum>i\<in>{0..<int n}. \<Sum>j\<in>{0..<int n}.
       spin a i j * (spin a ((i - 1) mod int n) j + spin a i ((j - 1) mod int n)))"
proof -
  let ?b = "add2 (roll_axis0 1 a) (roll_axis1 1 a)"
  have b: "square n ?b"
    using assms by (simp add: square_add2 square_roll_axis0 square_roll_axis1)
  have "energy_sum a = (\<Sum>i\<in>{0..<int n}. \<Sum>j\<in>{0..<int n}. spin (mul2 a ?b) i j)"
    unfolding energy_sum_def using assms b by (simp add: sum2_spin square_mul2)
  also have "\<dots> = (\<Sum>i\<in>{0..<int n}. \<Sum>j\<in>{0..<int n}.
       spin a i j * (spin a ((i - 1) mod int n) j + spin a i ((j - 1) mod int n)))"
    using assms b square_roll_axis0 [OF assms] square_roll_axis1 [OF assms]
    by (intro sum.cong refl)
      (simp add: spin_mul2 spin_add2 spin_roll_axis0 spin_roll_axis1)
  finally show ?thesis .
qed

subsection \<open>Walking round the torus\<close>

lemma ring_succ_pred:
  fixes N :: int
  assumes "0 \<le> a" "a < N"
  shows "((a + 1) mod N - 1) mod N = a" and "((a - 1) mod N + 1) mod N = a"
  using assms by (simp_all add: mod_diff_left_eq mod_add_left_eq)

lemma ring_shift_sum:
  fixes N :: int and g :: "int \<Rightarrow> int"
  shows "(\<Sum>a\<in>{0..<N}. g ((a + 1) mod N)) = (\<Sum>a\<in>{0..<N}. g a)"
  by (rule sum.reindex_bij_witness [where j = "\<lambda>a. (a + 1) mod N" and i = "\<lambda>a. (a - 1) mod N"])
     (auto simp: mod_diff_left_eq mod_add_left_eq)

lemma ring_sum_down:
  fixes N :: int and g :: "int \<Rightarrow> int"
  shows "(\<Sum>a\<in>{0..<N}. g a * g ((a - 1) mod N)) = (\<Sum>a\<in>{0..<N}. g a * g ((a + 1) mod N))"
proof -
  have "(\<Sum>a\<in>{0..<N}. g a * g ((a - 1) mod N))
      = (\<Sum>a\<in>{0..<N}. g ((a + 1) mod N) * g (((a + 1) mod N - 1) mod N))"
    by (rule ring_shift_sum [of "\<lambda>a. g a * g ((a - 1) mod N)" N, symmetric])
  also have "\<dots> = (\<Sum>a\<in>{0..<N}. g a * g ((a + 1) mod N))"
    by (rule sum.cong) (simp_all add: ring_succ_pred mult.commute)
  finally show ?thesis .
qed

lemma grid_sum_down_right:
  fixes N :: int and f :: "int \<Rightarrow> int \<Rightarrow> int"
  shows "(\<Sum>a\<in>{0..<N}. \<Sum>b\<in>{0..<N}. f a b * (f ((a - 1) mod N) b + f a ((b - 1) mod N)))
       = (\<Sum>a\<in>{0..<N}. \<Sum>b\<in>{0..<N}. f a b * (f ((a + 1) mod N) b + f a ((b + 1) mod N)))"
proof -
  have v: "(\<Sum>a\<in>{0..<N}. \<Sum>b\<in>{0..<N}. f a b * f ((a - 1) mod N) b)
         = (\<Sum>a\<in>{0..<N}. \<Sum>b\<in>{0..<N}. f a b * f ((a + 1) mod N) b)"
  proof -
    have "(\<Sum>a\<in>{0..<N}. \<Sum>b\<in>{0..<N}. f a b * f ((a - 1) mod N) b)
        = (\<Sum>b\<in>{0..<N}. \<Sum>a\<in>{0..<N}. f a b * f ((a - 1) mod N) b)"
      by (rule sum.swap)
    also have "\<dots> = (\<Sum>b\<in>{0..<N}. \<Sum>a\<in>{0..<N}. f a b * f ((a + 1) mod N) b)"
      by (rule sum.cong) (simp_all add: ring_sum_down [of "\<lambda>a. f a b" for b])
    also have "\<dots> = (\<Sum>a\<in>{0..<N}. \<Sum>b\<in>{0..<N}. f a b * f ((a + 1) mod N) b)"
      by (rule sum.swap)
    finally show ?thesis .
  qed
  have h: "(\<Sum>a\<in>{0..<N}. \<Sum>b\<in>{0..<N}. f a b * f a ((b - 1) mod N))
         = (\<Sum>a\<in>{0..<N}. \<Sum>b\<in>{0..<N}. f a b * f a ((b + 1) mod N))"
    by (rule sum.cong) (simp_all add: ring_sum_down [of "f a" for a])
  show ?thesis
    by (simp add: distrib_left sum.distrib v h)
qed

lemma int_interval_3: "{0..<3::int} = {0, 1, 2}"
  by auto

section \<open>The energy\<close>

text \<open>
  C1. On an \<open>N\<close> by \<open>N\<close> lattice, \<open>energy\<close> returns \<open>-J\<close> times the sum over all cells
  of the cell's spin times the sum of its lower and its right neighbour, indices
  wrapped modulo \<open>N\<close>. The roll-based expression pairs each cell with its upper and
  left neighbour (the second equation), and the two sums agree by going once round each
  ring. The integer total is the same in both, so the one product with \<open>-J\<close> is too.
\<close>

theorem energy_down_right:
  assumes "wf_sim s"
  shows "energy s = - J * of_int (\<Sum>i\<in>{0..<size_sim s}. \<Sum>j\<in>{0..<size_sim s}.
           spin (state s) i j *
             (spin (state s) ((i + 1) mod size_sim s) j + spin (state s) i ((j + 1) mod size_sim s))) \<and>
         energy s = - J * of_int (\<Sum>i\<in>{0..<size_sim s}. \<Sum>j\<in>{0..<size_sim s}.
           spin (state s) i j *
             (spin (state s) ((i - 1) mod size_sim s) j + spin (state s) i ((j - 1) mod size_sim s)))"
proof -
  have "square (nat (size_sim s)) (state s)" and "int (nat (size_sim s)) = size_sim s"
    using assms by (simp_all add: wf_sim_def)
  then have "energy_sum (state s) = (\<Sum>i\<in>{0..<size_sim s}. \<Sum>j\<in>{0..<size_sim s}.
           spin (state s) i j *
             (spin (state s) ((i - 1) mod size_sim s) j + spin (state s) i ((j - 1) mod size_sim s)))"
    using energy_sum_spin [of "nat (size_sim s)" "state s"] by simp
  then show ?thesis
    by (simp only: energy_def grid_sum_down_right simp_thms)
qed

theorem energy_down_right_witness:
  "wf_sim sim_3x3 \<and> energy sim_3x3 = - J * 2"
proof -
  have wf: "wf_sim sim_3x3"
    by (simp add: wf_sim_def square_def sim_3x3_def)
  show ?thesis
    using energy_down_right [OF wf] wf
    by (simp add: sim_3x3_def spin_def int_interval_3)
qed

section \<open>One update\<close>

text \<open>
  With indices as \<open>randint\<close> returns them, every read and the write of \<open>update\<close>
  stay inside the array, and the call is described by one equation.
\<close>

lemma norm_index_in_range: "0 \<le> i \<Longrightarrow> i < int n \<Longrightarrow> norm_index i n = Inr (nat i)"
  by (simp add: norm_index_def)

lemma norm_index_Inr: "norm_index i n = Inr r \<Longrightarrow> r < n"
  by (auto simp: norm_index_def split: if_splits)

lemma getitem_in_range:
  assumes "square n a" "0 \<le> i" "i < int n" "0 \<le> j" "j < int n"
  shows "getitem a i j = Inr (spin a i j)"
proof -
  have "length a = n" and "length (a ! nat i) = n"
    using assms by (simp_all add: square_def)
  then show ?thesis
    using assms by (simp add: getitem_def thenE_def norm_index_in_range spin_def)
qed

lemma setitem_in_range:
  assumes "square n a" "0 \<le> i" "i < int n" "0 \<le> j" "j < int n"
  shows "setitem a i j v = Inr (a[nat i := (a ! nat i)[nat j := v]])"
proof -
  have "length a = n" and "length (a ! nat i) = n"
    using assms by (simp_all add: square_def)
  then show ?thesis
    using assms by (simp add: setitem_def thenE_def norm_index_in_range)
qed

lemma square_update:
  assumes "square n a"
  shows "square n (a[r := (a ! r)[c := v]])"
proof (cases "r < length a")
  case True
  then have "length ((a ! r)[c := v]) = n"
    using assms by (simp add: square_def)
  then show ?thesis
    using assms set_update_subset_insert [of a r "(a ! r)[c := v]"]
    by (auto simp: square_def)
next
  case False
  then have "length a \<le> r"
    by simp
  then have "a[r := (a ! r)[c := v]] = a"
    by (rule list_update_beyond)
  then show ?thesis using assms by simp
qed

lemma square_flipped: "square n a \<Longrightarrow> square n (flipped a i j)"
  by (simp add: flipped_def square_update)

lemma spin_update:
  assumes "square n a" "0 \<le> i" "i < int n" "0 \<le> j" "j < int n"
    and "0 \<le> x" "x < int n" "0 \<le> y" "y < int n"
  shows "spin (a[nat i := (a ! nat i)[nat j := v]]) x y = (if x = i \<and> y = j then v else spin a x y)"
proof -
  have "length a = n" and "length (a ! nat i) = n"
    using assms by (simp_all add: square_def)
  then show ?thesis
    using assms by (auto simp: spin_def nth_list_update)
qed

lemma spin_flipped:
  assumes "square n a" "0 \<le> i" "i < int n" "0 \<le> j" "j < int n"
    and "0 \<le> x" "x < int n" "0 \<le> y" "y < int n"
  shows "spin (flipped a i j) x y = (if x = i \<and> y = j then - spin a i j else spin a x y)"
  unfolding flipped_def using assms by (rule spin_update)

lemma delta_E_in_range:
  assumes "wf_sim s" "0 \<le> i" "i < size_sim s" "0 \<le> j" "j < size_sim s"
  shows "delta_E s i j = Inr (2 * J * of_int (spin (state s) i j) * of_int (neighbours s i j))"
proof -
  let ?n = "nat (size_sim s)"
  have sq: "square ?n (state s)" and n: "int ?n = size_sim s" and pos: "0 < size_sim s"
    using assms by (simp_all add: wf_sim_def)
  have g: "getitem (state s) x y = Inr (spin (state s) x y)"
    if "0 \<le> x" "x < size_sim s" "0 \<le> y" "y < size_sim s" for x y
    using getitem_in_range [OF sq, of x y] that n by simp
  show ?thesis
    using assms pos by (simp add: delta_E_def thenE_def g neighbours_def)
qed

lemma update_in_range:
  assumes "wf_sim s" "0 \<le> i" "i < size_sim s" "0 \<le> j" "j < size_sim s"
  shows "update s i j u =
     Inr (s\<lparr>state := (if accepts (temperature s)
                          (2 * J * of_int (spin (state s) i j) * of_int (neighbours s i j)) u
                      then flipped (state s) i j else state s),
            step := step s + 1\<rparr>)"
proof -
  let ?n = "nat (size_sim s)"
  have sq: "square ?n (state s)" and n: "int ?n = size_sim s" and pos: "0 < size_sim s"
    using assms by (simp_all add: wf_sim_def)
  have g: "getitem (state s) i j = Inr (spin (state s) i j)"
    using getitem_in_range [OF sq, of i j] assms n by simp
  have st: "setitem (state s) i j v = Inr ((state s)[nat i := (state s ! nat i)[nat j := v]])" for v
    using setitem_in_range [OF sq, of i j v] assms n by simp
  show ?thesis
    using pos by (simp add: update_def thenE_def delta_E_in_range [OF assms] g st flipped_def)
qed

lemma wf_update:
  assumes "wf_sim s" "0 \<le> i" "i < size_sim s" "0 \<le> j" "j < size_sim s"
    and "update s i j u = Inr s'"
  shows "wf_sim s'"
  using assms(6) assms(1) unfolding update_in_range [OF assms(1-5)]
  by (auto simp: wf_sim_def square_flipped)

section \<open>The acceptance rule\<close>

lemma kB_pos: "0 < kB"
  by (simp add: kB_def)

lemma J_pos: "0 < J"
  by (simp add: J_def)

lemma accepts_no_underflow:
  assumes "\<not> underflows temp" "0 < u"
  shows "accepts temp dE u = (ln u < - dE / (temp * kB))"
  using assms by (simp add: accepts_def)

lemma no_underflow_1043: "\<not> underflows 1043"
  by (simp add: underflows_def kB_def field_simps)

lemma no_underflow_minus_1043: "\<not> underflows (- 1043)"
  by (simp add: underflows_def kB_def field_simps)



lemma log_p_nonneg:
  fixes d t :: real
  assumes "d \<le> 0" "0 < t"
  shows "0 \<le> - d / (t * kB)"
proof -
  have "0 < t * kB"
    using assms(2) kB_pos by simp
  moreover have "0 \<le> - d"
    using assms(1) by simp
  ultimately show ?thesis
    by (rule divide_nonneg_pos [rotated])
qed

lemma accepts_downhill:
  assumes "0 < temp" "\<not> underflows temp" "dE \<le> 0" "0 < u" "u < 1"
  shows "accepts temp dE u"
proof -
  have "ln u < 0"
    using assms(4,5) by simp
  moreover have "0 \<le> - dE / (temp * kB)"
    using assms(3,1) by (rule log_p_nonneg)
  ultimately show ?thesis
    unfolding accepts_no_underflow [OF assms(2,4)] by linarith
qed

lemma rejects_half:
  assumes "4 * J \<le> dE"
  shows "\<not> accepts 1043 dE (1 / 2)"
proof -
  have "ln (1 / 2 :: real) = - ln 2"
    by (simp add: ln_div)
  then have half: "- 1 < ln (1 / 2 :: real)"
    using ln_2_less_1 by simp
  have "1043 * kB \<le> 4 * J"
    by (simp add: J_def kB_def)
  then have "1043 * kB \<le> dE"
    using assms by simp
  then have "1 \<le> dE / (1043 * kB)"
    using kB_pos by (simp add: pos_le_divide_eq)
  then have "- dE / (1043 * kB) \<le> - 1"
    by simp
  then have "\<not> ln (1 / 2) < - dE / (1043 * kB)"
    using half by linarith
  then show ?thesis
    using accepts_no_underflow [OF no_underflow_1043, of "1 / 2" dE] by simp
qed

text \<open>
  Below zero the sign of \<open>log_p\<close> turns round: a flip that lowers the energy is then
  rejected for a draw near \<open>1\<close>.
\<close>

lemma rejects_downhill_below_zero: "\<not> accepts (- 1043) (- (8 * J)) (1 / 2)"
proof -
  have "ln (1 / 2 :: real) = - ln 2"
    by (simp add: ln_div)
  then have half: "- 1 < ln (1 / 2 :: real)"
    using ln_2_less_1 by simp
  have "1043 * kB \<le> 8 * J"
    by (simp add: J_def kB_def)
  then have "1 \<le> 8 * J / (1043 * kB)"
    using kB_pos by (simp add: pos_le_divide_eq)
  moreover have "- (- (8 * J)) / (- 1043 * kB) = - (8 * J / (1043 * kB))"
    by simp
  ultimately have "\<not> ln (1 / 2) < - (- (8 * J)) / (- 1043 * kB)"
    using half by linarith
  then show ?thesis
    using accepts_no_underflow [OF no_underflow_minus_1043, of "1 / 2" "- (8 * J)"] by simp
qed

lemma wf_sim_3x3: "wf_sim sim_3x3"
  by (simp add: wf_sim_def square_def sim_3x3_def)

lemma wf_sim_3x3_one: "wf_sim sim_3x3_one"
  by (simp add: wf_sim_def square_def sim_3x3_one_def)

lemma update_accept_example: "update sim_3x3 0 1 (1 / 2) = Inr sim_3x3_one"
proof -
  have "accepts 1043 (- (8 * J)) (1 / 2)"
    using J_pos no_underflow_1043 by (intro accepts_downhill) simp_all
  moreover have "update sim_3x3 0 1 (1 / 2) =
     Inr (sim_3x3\<lparr>state := (if accepts (temperature sim_3x3)
              (2 * J * of_int (spin (state sim_3x3) 0 1) * of_int (neighbours sim_3x3 0 1)) (1 / 2)
            then flipped (state sim_3x3) 0 1 else state sim_3x3),
          step := step sim_3x3 + 1\<rparr>)"
    by (rule update_in_range [OF wf_sim_3x3]) (simp_all add: sim_3x3_def)
  ultimately show ?thesis
    by (simp add: sim_3x3_def sim_3x3_one_def neighbours_def spin_def flipped_def)
qed

lemma update_reject_example: "update sim_3x3_one 1 1 (1 / 2) = Inr sim_3x3_two"
proof -
  have "\<not> accepts 1043 (8 * J) (1 / 2)"
    using J_pos by (intro rejects_half) simp
  moreover have "update sim_3x3_one 1 1 (1 / 2) =
     Inr (sim_3x3_one\<lparr>state := (if accepts (temperature sim_3x3_one)
              (2 * J * of_int (spin (state sim_3x3_one) 1 1) * of_int (neighbours sim_3x3_one 1 1))
              (1 / 2)
            then flipped (state sim_3x3_one) 1 1 else state sim_3x3_one),
          step := step sim_3x3_one + 1\<rparr>)"
    by (rule update_in_range [OF wf_sim_3x3_one]) (simp_all add: sim_3x3_one_def)
  ultimately show ?thesis
    by (simp add: sim_3x3_one_def sim_3x3_two_def neighbours_def spin_def flipped_def)
qed

lemma set_temperature_example: "set_temperature sim_3x3_one 1043 = sim_3x3_one"
  by (simp add: set_temperature_def sim_3x3_one_def)

lemma run_example: "run sim_3x3 calls_example = Inr sim_3x3_two"
  by (simp add: calls_example_def thenE_def update_accept_example update_reject_example
      set_temperature_example)

lemma draws_example: "draws_ok (size_sim sim_3x3) calls_example"
  by (simp add: draws_ok_def calls_example_def sim_3x3_def)


text \<open>
  At a temperature below zero, which the constructor accepts as well, the flip of the
  cell \<open>(0, 1)\<close> lowers the energy by \<open>8 J\<close>, and with the draw \<open>1 / 2\<close> the update leaves
  the lattice as it was.
\<close>

lemma downhill_rejected_below_zero:
  "init 3 (- 1043) pick_3x3 = Inr sim_3x3_below_zero \<and>
   delta_E sim_3x3_below_zero 0 1 = Inr (- 8 * J) \<and> - 8 * J \<le> 0 \<and>
   update sim_3x3_below_zero 0 1 (1 / 2) =
     Inr \<lparr>size_sim = 3, temperature = - 1043,
          state = [[1, - 1, 1], [1, 1, 1], [- 1, 1, 1]], step = 1\<rparr>"
proof -
  have d: "delta_E sim_3x3_below_zero 0 1 = Inr (- 8 * J)"
    by (simp add: delta_E_def getitem_def norm_index_def thenE_def sim_3x3_below_zero_def)
  have t: "temperature sim_3x3_below_zero = - 1043" and sz: "\<not> size_sim sim_3x3_below_zero \<le> 0"
    by (simp_all add: sim_3x3_below_zero_def)
  have rej: "\<not> accepts (- 1043) (- 8 * J) (1 / 2)"
    using rejects_downhill_below_zero by simp
  have "update sim_3x3_below_zero 0 1 (1 / 2) =
      Inr (sim_3x3_below_zero\<lparr>state := state sim_3x3_below_zero,
             step := step sim_3x3_below_zero + 1\<rparr>)"
    unfolding update_def by (simp only: d t sz rej thenE_def if_False sum.case)
  moreover have "init 3 (- 1043) pick_3x3 = Inr sim_3x3_below_zero"
    by (simp add: init_def choice_def pick_3x3_def sim_3x3_below_zero_def upt_rec
        numeral_3_eq_3)
  ultimately show ?thesis
    using d J_pos by (simp add: sim_3x3_below_zero_def)
qed




section \<open>Construction and the temperature\<close>

lemma square_choice: "square n (choice n pick)"
  by (auto simp: square_def choice_def)

lemma spins_ok_choice: "spins_ok (choice n pick)"
  by (auto simp: spins_ok_def choice_def)

lemma spin_choice:
  "0 \<le> i \<Longrightarrow> i < int n \<Longrightarrow> 0 \<le> j \<Longrightarrow> j < int n \<Longrightarrow>
     spin (choice n pick) i j = (if pick (nat i) (nat j) then 1 else - 1)"
  by (simp add: spin_def choice_def)

lemma wf_init: "init n t pick = Inr s \<Longrightarrow> wf_sim s"
  by (auto simp: init_def wf_sim_def square_choice split: if_splits)

text \<open>
  C3. The claim that a non-positive temperature is refused fails: the constructor and
  \<open>set_temperature\<close> check nothing about the temperature. Here a lattice is built at
  temperature \<open>0\<close>, and the temperature of an object is set to \<open>-1\<close>.
\<close>

theorem temperature_not_validated_counterexample:
  "\<not> isl (init 3 0 all_up) \<and> temperature (set_temperature sim_3x3 (- 1)) = - 1"
  by (simp add: init_def set_temperature_def)

text \<open>
  C3, as the code has it: construction with a size that is not negative succeeds at
  every temperature and stores it as given, with the step counter at \<open>0\<close>;
  \<open>set_temperature\<close> stores every value it is given and changes nothing else.
\<close>

theorem temperature_stored:
  "(0 \<le> n \<longrightarrow> init n t pick =
      Inr \<lparr>size_sim = n, temperature = t, state = choice (nat n) pick, step = 0\<rparr>) \<and>
   set_temperature s temp = s\<lparr>temperature := temp\<rparr>"
  by (simp add: init_def set_temperature_def)

theorem temperature_stored_witness:
  "(0::int) \<le> 2 \<and>
   init 2 (- 5) checkerboard =
     Inr \<lparr>size_sim = 2, temperature = - 5, state = [[1, - 1], [- 1, 1]], step = 0\<rparr> \<and>
   set_temperature sim_1x1 0 = \<lparr>size_sim = 1, temperature = 0, state = [[1]], step = 0\<rparr>"
proof -
  have "choice (nat 2) checkerboard = [[1, - 1], [- 1, 1]]"
    by (simp add: choice_def checkerboard_def upt_rec numeral_2_eq_2)
  then show ?thesis
    using temperature_stored [of 2 "- 5" checkerboard sim_1x1 0]
    by (simp add: sim_1x1_def)
qed

section \<open>The invariant\<close>

lemma getitem_mem:
  assumes "getitem a i j = Inr c"
  shows "\<exists>row\<in>set a. c \<in> set row"
proof -
  from assms obtain r k where r: "norm_index i (length a) = Inr r"
    and k: "norm_index j (length (a ! r)) = Inr k" and c: "c = a ! r ! k"
    by (auto simp: getitem_def thenE_def split: sum.splits)
  have "r < length a" and "k < length (a ! r)"
    using r k by (auto dest: norm_index_Inr)
  then show ?thesis
    using c by (auto intro!: bexI [of _ "a ! r"])
qed

lemma setitem_cells:
  assumes "setitem a i j v = Inr a'" "row' \<in> set a'" "x \<in> set row'"
  shows "x = v \<or> (\<exists>row\<in>set a. x \<in> set row)"
proof -
  from assms(1) obtain r k where r: "norm_index i (length a) = Inr r"
    and a': "a' = a[r := (a ! r)[k := v]]"
    by (auto simp: setitem_def thenE_def split: sum.splits)
  have rl: "r < length a"
    using r by (rule norm_index_Inr)
  have "row' = (a ! r)[k := v] \<or> row' \<in> set a"
    using assms(2) a' set_update_subset_insert [of a r "(a ! r)[k := v]"] by auto
  then show ?thesis
  proof
    assume "row' = (a ! r)[k := v]"
    then have "x = v \<or> x \<in> set (a ! r)"
      using assms(3) set_update_subset_insert [of "a ! r" k v] by auto
    then show ?thesis
      using rl by auto
  next
    assume "row' \<in> set a"
    then show ?thesis
      using assms(3) by auto
  qed
qed

lemma spins_ok_update:
  assumes "spins_ok (state s)" "update s i j u = Inr s'"
  shows "spins_ok (state s')"
proof -
  from assms(2) obtain a where a: "state s' = a"
    and cases: "a = state s \<or> (\<exists>c. getitem (state s) i j = Inr c \<and> setitem (state s) i j (- c) = Inr a)"
    by (auto simp: update_def thenE_def split: if_splits sum.splits)
  from cases show ?thesis
  proof
    assume "a = state s"
    then show ?thesis using a assms(1) by simp
  next
    assume "\<exists>c. getitem (state s) i j = Inr c \<and> setitem (state s) i j (- c) = Inr a"
    then obtain c where g: "getitem (state s) i j = Inr c"
      and st: "setitem (state s) i j (- c) = Inr a"
      by auto
    have c: "c = 1 \<or> c = - 1"
      using getitem_mem [OF g] assms(1) by (auto simp: spins_ok_def)
    have "x = 1 \<or> x = - 1" if "row' \<in> set a" "x \<in> set row'" for row' x
      using setitem_cells [OF st that] c assms(1) by (auto simp: spins_ok_def)
    then show ?thesis
      using a by (simp add: spins_ok_def)
  qed
qed

lemma spins_ok_call:
  assumes "spins_ok (state s)" "call_sim s c = Inr (s', r)"
  shows "spins_ok (state s')"
  using assms
  by (cases c) (auto simp: thenE_def set_temperature_def split: sum.splits dest: spins_ok_update)

lemma spins_ok_run:
  "spins_ok (state s) \<Longrightarrow> run s cs = Inr s' \<Longrightarrow> spins_ok (state s')"
proof (induction cs arbitrary: s)
  case Nil
  then show ?case by simp
next
  case (Cons c cs)
  from Cons.prems(2) obtain s1 r where c: "call_sim s c = Inr (s1, r)" and rest: "run s1 cs = Inr s'"
    by (auto simp: thenE_def split: sum.splits)
  have "spins_ok (state s1)"
    using Cons.prems(1) c by (rule spins_ok_call)
  then show ?case
    using rest by (rule Cons.IH)
qed

text \<open>
  C4. Every cell is \<open>-1\<close> or \<open>+1\<close> after construction, stays so across an update
  whatever the draws are, and stays so across every sequence of calls of \<open>update\<close>,
  \<open>set_temperature\<close>, \<open>energy\<close> and \<open>average_magnetism\<close> in any order.
\<close>

theorem spins_invariant:
  "(init n t pick = Inr s0 \<longrightarrow> spins_ok (state s0)) \<and>
   (spins_ok (state s) \<and> update s i j u = Inr s' \<longrightarrow> spins_ok (state s')) \<and>
   (spins_ok (state s) \<and> run s cs = Inr s'' \<longrightarrow> spins_ok (state s''))"
  by (auto simp: init_def spins_ok_choice split: if_splits
      intro: spins_ok_update spins_ok_run)

theorem spins_invariant_witness:
  "init 2 300 checkerboard =
     Inr \<lparr>size_sim = 2, temperature = 300, state = [[1, - 1], [- 1, 1]], step = 0\<rparr> \<and>
   spins_ok [[1, - 1], [- 1, 1]] \<and>
   spins_ok (state sim_3x3) \<and>
   update sim_3x3 0 1 (1 / 2) = Inr sim_3x3_one \<and> spins_ok (state sim_3x3_one) \<and>
   run sim_3x3 calls_example = Inr sim_3x3_two \<and> spins_ok (state sim_3x3_two)"
proof -
  let ?s0 = "\<lparr>size_sim = 2, temperature = 300, state = [[1, - 1], [- 1, 1]], step = 0\<rparr>"
  have i: "init 2 300 checkerboard = Inr ?s0"
    by (simp add: init_def choice_def checkerboard_def upt_rec numeral_2_eq_2)
  have ok: "spins_ok (state sim_3x3)"
    by (simp add: spins_ok_def sim_3x3_def)
  show ?thesis
    using spins_invariant [of 2 300 checkerboard ?s0 sim_3x3 0 1 "1 / 2" sim_3x3_one
        calls_example sim_3x3_two]
      i ok update_accept_example run_example
    by simp
qed

section \<open>The step counter\<close>

lemma update_step: "update s i j u = Inr s' \<Longrightarrow> step s' = step s + 1"
  by (auto simp: update_def thenE_def split: if_splits sum.splits)

lemma call_step:
  "call_sim s c = Inr (s', r) \<Longrightarrow> step s' = step s + (if is_update c then 1 else 0)"
  by (cases c) (auto simp: thenE_def set_temperature_def split: sum.splits dest: update_step)

lemma run_step:
  "run s cs = Inr s' \<Longrightarrow> step s' = step s + int (length (filter is_update cs))"
proof (induction cs arbitrary: s)
  case Nil
  then show ?case by simp
next
  case (Cons c cs)
  from Cons.prems obtain s1 r where c: "call_sim s c = Inr (s1, r)" and rest: "run s1 cs = Inr s'"
    by (auto simp: thenE_def split: sum.splits)
  show ?case
    using call_step [OF c] Cons.IH [OF rest] by simp
qed

lemma call_returns:
  assumes "wf_sim s" "draw_ok (size_sim s) c"
  shows "\<exists>s' r. call_sim s c = Inr (s', r) \<and> wf_sim s' \<and> size_sim s' = size_sim s"
proof (cases c)
  case (Update i j u)
  then have r: "0 \<le> i" "i < size_sim s" "0 \<le> j" "j < size_sim s"
    using assms(2) by simp_all
  show ?thesis
    using assms(1) unfolding Update
    by (simp add: thenE_def update_in_range [OF assms(1) r] wf_sim_def square_flipped)
next
  case (Set_temperature t)
  then show ?thesis
    using assms(1) by (simp add: set_temperature_def wf_sim_def)
next
  case Energy
  then show ?thesis using assms(1) by simp
next
  case Average_magnetism
  then show ?thesis using assms(1) by simp
qed

lemma run_returns:
  "wf_sim s \<Longrightarrow> draws_ok (size_sim s) cs \<Longrightarrow> \<exists>s'. run s cs = Inr s'"
  unfolding draws_ok_def
proof (induction cs arbitrary: s)
  case Nil
  then show ?case by simp
next
  case (Cons c cs)
  from call_returns [of s c] Cons.prems
  obtain s1 r where c: "call_sim s c = Inr (s1, r)" and wf: "wf_sim s1"
    and sz: "size_sim s1 = size_sim s"
    by auto
  have "\<exists>s'. run s1 cs = Inr s'"
    using wf Cons.prems(2) sz by (intro Cons.IH) simp_all
  then show ?case
    using c by (simp add: thenE_def)
qed

text \<open>
  C5. Construction sets the step counter to \<open>0\<close>. A sequence of calls that returns
  leaves the counter at its initial value plus the number of \<open>update\<close> calls in the
  sequence, whatever the uniform draws were, so whether the trials were accepted or not;
  and on a well-formed object every sequence whose draws are ones the random source can
  return does return.
\<close>

theorem step_counter:
  "(init n t pick = Inr s0 \<longrightarrow> step s0 = 0) \<and>
   (run s cs = Inr s' \<longrightarrow> step s' = step s + int (length (filter is_update cs))) \<and>
   (wf_sim s \<and> draws_ok (size_sim s) cs \<longrightarrow> (\<exists>s'. run s cs = Inr s'))"
  by (auto simp: init_def run_step run_returns split: if_splits)

theorem step_counter_witness:
  "init 0 300 all_up = Inr \<lparr>size_sim = 0, temperature = 300, state = [], step = 0\<rparr> \<and>
   wf_sim sim_3x3 \<and> draws_ok (size_sim sim_3x3) calls_example \<and>
   run sim_3x3 calls_example = Inr sim_3x3_two \<and>
   length (filter is_update calls_example) = 2 \<and> step sim_3x3 = 0 \<and> step sim_3x3_two = 2"
proof -
  let ?s0 = "\<lparr>size_sim = 0, temperature = 300, state = [], step = 0\<rparr>"
  have i: "init 0 300 all_up = Inr ?s0"
    by (simp add: init_def choice_def)
  have k: "length (filter is_update calls_example) = 2"
    by (simp add: calls_example_def)
  show ?thesis
    using step_counter [of 0 300 all_up ?s0 sim_3x3 calls_example sim_3x3_two]
      i k wf_sim_3x3 draws_example run_example
    by (simp add: sim_3x3_def)
qed

section \<open>What an update leaves alone\<close>

text \<open>
  C7. An update returns; the size and the temperature are as before, the lattice keeps
  its shape and is either unchanged or the old one with the chosen cell negated: every
  cell other than \<open>(i, j)\<close> keeps its value, and the cell \<open>(i, j)\<close> has its old value or
  the negated one.
\<close>

theorem update_frame:
  assumes "wf_sim s" "0 \<le> i" "i < size_sim s" "0 \<le> j" "j < size_sim s"
  shows "\<exists>s'. update s i j u = Inr s' \<and>
     size_sim s' = size_sim s \<and> temperature s' = temperature s \<and>
     square (nat (size_sim s)) (state s') \<and>
     (state s' = state s \<or> state s' = flipped (state s) i j) \<and>
     (\<forall>x y. 0 \<le> x \<and> x < size_sim s \<and> 0 \<le> y \<and> y < size_sim s \<and> (x \<noteq> i \<or> y \<noteq> j) \<longrightarrow>
        spin (state s') x y = spin (state s) x y) \<and>
     (spin (state s') i j = spin (state s) i j \<or> spin (state s') i j = - spin (state s) i j)"
proof -
  let ?n = "nat (size_sim s)"
  have sq: "square ?n (state s)" and n: "int ?n = size_sim s"
    using assms by (simp_all add: wf_sim_def)
  have fl: "spin (flipped (state s) i j) x y =
      (if x = i \<and> y = j then - spin (state s) i j else spin (state s) x y)"
    if "0 \<le> x" "x < size_sim s" "0 \<le> y" "y < size_sim s" for x y
    using spin_flipped [OF sq, of i j x y] assms that n by simp
  show ?thesis
    unfolding update_in_range [OF assms]
    using sq assms by (auto simp: square_flipped fl)
qed

theorem update_frame_witness:
  "wf_sim sim_3x3 \<and> update sim_3x3 0 1 (1 / 2) = Inr sim_3x3_one \<and>
   size_sim sim_3x3_one = size_sim sim_3x3 \<and> temperature sim_3x3_one = temperature sim_3x3 \<and>
   spin (state sim_3x3_one) 0 1 = - spin (state sim_3x3) 0 1 \<and>
   spin (state sim_3x3_one) 2 0 = spin (state sim_3x3) 2 0"
proof -
  have r: "(0::int) \<le> 0" "0 < size_sim sim_3x3" "(0::int) \<le> 1" "1 < size_sim sim_3x3"
    by (simp_all add: sim_3x3_def)
  from update_frame [OF wf_sim_3x3 r, of "1 / 2"]
  have "size_sim sim_3x3_one = size_sim sim_3x3 \<and> temperature sim_3x3_one = temperature sim_3x3 \<and>
     spin (state sim_3x3_one) 2 0 = spin (state sim_3x3) 2 0"
    unfolding update_accept_example by (simp add: sim_3x3_def)
  moreover have "spin (state sim_3x3_one) 0 1 = - spin (state sim_3x3) 0 1"
    by (simp add: sim_3x3_def sim_3x3_one_def spin_def)
  ultimately show ?thesis
    using wf_sim_3x3 update_accept_example by simp
qed

section \<open>The magnetism\<close>

lemma abs_sum_list_spins:
  "\<forall>x\<in>set xs. x = 1 \<or> x = - 1 \<Longrightarrow> \<bar>sum_list xs\<bar> \<le> int (length xs)"
  by (induction xs) auto

lemma abs_sum2_spins: "spins_ok a \<Longrightarrow> \<bar>sum2 a\<bar> \<le> int (count2 a)"
proof (induction a)
  case Nil
  then show ?case by (simp add: sum2_def count2_def)
next
  case (Cons row a)
  have "\<bar>sum_list row\<bar> \<le> int (length row)"
    using Cons.prems by (intro abs_sum_list_spins) (simp add: spins_ok_def)
  moreover have "\<bar>sum2 a\<bar> \<le> int (count2 a)"
    using Cons.prems by (intro Cons.IH) (simp add: spins_ok_def)
  ultimately show ?case
    by (simp add: sum2_def count2_def)
qed

lemma count2_square: "square n a \<Longrightarrow> count2 a = n * n"
proof -
  assume "square n a"
  then have "length a = n" and "map length a = replicate (length a) n"
    by (auto simp: square_def intro!: nth_equalityI)
  then show ?thesis
    by (simp add: count2_def sum_list_replicate)
qed

text \<open>
  C9. On a lattice that is not empty and holds only \<open>-1\<close> and \<open>+1\<close>,
  \<open>average_magnetism\<close> returns the sum of all cells divided by their number, and the
  value lies between \<open>-1\<close> and \<open>1\<close>.
\<close>

theorem magnetism_mean:
  assumes "wf_sim s" "0 < size_sim s" "spins_ok (state s)"
  shows "\<exists>m. average_magnetism s = Some m \<and>
     m = of_int (\<Sum>i\<in>{0..<size_sim s}. \<Sum>j\<in>{0..<size_sim s}. spin (state s) i j)
           / of_int (size_sim s * size_sim s) \<and>
     - 1 \<le> m \<and> m \<le> 1"
proof -
  let ?n = "nat (size_sim s)"
  let ?S = "sum2 (state s)"
  let ?C = "int (count2 (state s))"
  have sq: "square ?n (state s)" and n: "int ?n = size_sim s"
    using assms by (simp_all add: wf_sim_def)
  have cnt: "?C = size_sim s * size_sim s"
    using count2_square [OF sq] n by (metis of_nat_mult)
  have pos: "0 < ?C"
    using cnt assms(2) by simp
  have avg: "average_magnetism s = Some (of_int ?S / of_int ?C)"
    using pos by (simp add: average_magnetism_def)
  have total: "?S = (\<Sum>i\<in>{0..<size_sim s}. \<Sum>j\<in>{0..<size_sim s}. spin (state s) i j)"
    using sum2_spin [OF sq] n by simp
  have "\<bar>?S\<bar> \<le> ?C"
    using assms(3) by (rule abs_sum2_spins)
  then have "\<bar>real_of_int ?S\<bar> \<le> real_of_int ?C"
    by linarith
  then have "- 1 \<le> real_of_int ?S / real_of_int ?C" and "real_of_int ?S / real_of_int ?C \<le> 1"
    using pos by (simp_all add: pos_le_divide_eq pos_divide_le_eq)
  then show ?thesis
    using avg total cnt by simp
qed

theorem magnetism_mean_witness:
  "wf_sim sim_3x3 \<and> 0 < size_sim sim_3x3 \<and> spins_ok (state sim_3x3) \<and>
   average_magnetism sim_3x3 = Some (5 / 9)"
proof -
  have p: "0 < size_sim sim_3x3" and ok: "spins_ok (state sim_3x3)"
    by (simp_all add: sim_3x3_def spins_ok_def)
  show ?thesis
    using magnetism_mean [OF wf_sim_3x3 p ok] wf_sim_3x3 p ok
    by (auto simp: sim_3x3_def spin_def int_interval_3)
qed

section \<open>Reads\<close>

text \<open>
  C10. \<open>energy\<close> and \<open>average_magnetism\<close> depend on the lattice alone: two objects
  with the same lattice give the same values whatever their temperatures and step
  counters are, and a call of either leaves the whole object as it was.
\<close>

theorem observables_read_only:
  "(state s1 = state s2 \<longrightarrow>
      energy s1 = energy s2 \<and> average_magnetism s1 = average_magnetism s2) \<and>
   (\<exists>e. call_sim s Energy = Inr (s, e)) \<and>
   (\<exists>m. call_sim s Average_magnetism = Inr (s, m))"
  by (simp add: energy_def average_magnetism_def)

theorem observables_read_only_witness:
  "state sim_3x3_one = state (set_temperature sim_3x3_two 300) \<and>
   temperature sim_3x3_one \<noteq> temperature (set_temperature sim_3x3_two 300) \<and>
   step sim_3x3_one \<noteq> step (set_temperature sim_3x3_two 300) \<and>
   energy sim_3x3_one = energy (set_temperature sim_3x3_two 300) \<and>
   average_magnetism sim_3x3_one = average_magnetism (set_temperature sim_3x3_two 300)"
proof -
  have "state sim_3x3_one = state (set_temperature sim_3x3_two 300)"
    by (simp add: sim_3x3_one_def sim_3x3_two_def set_temperature_def)
  then show ?thesis
    using observables_read_only [of sim_3x3_one "set_temperature sim_3x3_two 300"]
    by (simp add: sim_3x3_one_def sim_3x3_two_def set_temperature_def)
qed

section \<open>The energy change of a flip\<close>

lemma ring_neighbours_differ:
  fixes N :: int
  assumes "2 \<le> N" "0 \<le> i" "i < N"
  shows "(i + 1) mod N \<noteq> i" and "(i - 1) mod N \<noteq> i"
proof -
  show "(i + 1) mod N \<noteq> i"
  proof (cases "i + 1 < N")
    case True
    then show ?thesis using assms by simp
  next
    case False
    then have "i + 1 = N" using assms by simp
    then have "(i + 1) mod N = 0" by simp
    then show ?thesis using \<open>i + 1 = N\<close> assms by simp
  qed
  show "(i - 1) mod N \<noteq> i"
  proof (cases "0 < i")
    case True
    then have "(i - 1) mod N = i - 1" using assms by simp
    then show ?thesis by simp
  next
    case False
    then have "i = 0" using assms by simp
    then have "(i - 1) mod N = N - 1"
      using assms by (simp add: zmod_minus1)
    then show ?thesis using \<open>i = 0\<close> assms by simp
  qed
qed

lemma ring_flip:
  fixes N :: int and g :: "int \<Rightarrow> int"
  assumes "2 \<le> N" "0 \<le> i" "i < N"
  shows "(\<Sum>a\<in>{0..<N}. (g(i := - g i)) a * (g(i := - g i)) ((a - 1) mod N))
       - (\<Sum>a\<in>{0..<N}. g a * g ((a - 1) mod N))
       = - 2 * g i * (g ((i + 1) mod N) + g ((i - 1) mod N))"
proof -
  let ?g' = "g(i := - g i)"
  let ?nx = "(i + 1) mod N"
  let ?d = "\<lambda>a. ?g' a * ?g' ((a - 1) mod N) - g a * g ((a - 1) mod N)"
  have ne1: "?nx \<noteq> i" and ne2: "(i - 1) mod N \<noteq> i"
    using assms by (rule ring_neighbours_differ)+
  have pred_nx: "(?nx - 1) mod N = i"
    using assms by (simp add: ring_succ_pred)
  have in1: "?nx \<in> {0..<N}"
    using assms by simp
  have zero: "?d a = 0" if "a \<in> {0..<N} - {i, ?nx}" for a
  proof -
    have "a \<noteq> i" and "a \<noteq> ?nx" and r: "0 \<le> a" "a < N"
      using that by auto
    have "(a - 1) mod N \<noteq> i"
    proof
      assume "(a - 1) mod N = i"
      then have "((a - 1) mod N + 1) mod N = ?nx" by simp
      then have "a = ?nx" using r by (simp add: ring_succ_pred)
      then show False using \<open>a \<noteq> ?nx\<close> by simp
    qed
    then show ?thesis using \<open>a \<noteq> i\<close> by simp
  qed
  have "(\<Sum>a\<in>{0..<N}. ?g' a * ?g' ((a - 1) mod N)) - (\<Sum>a\<in>{0..<N}. g a * g ((a - 1) mod N))
      = (\<Sum>a\<in>{0..<N}. ?d a)"
    by (simp add: sum_subtractf)
  also have "\<dots> = (\<Sum>a\<in>{i, ?nx}. ?d a)"
    using assms in1 zero by (intro sum.mono_neutral_right) auto
  also have "\<dots> = ?d i + ?d ?nx"
    using ne1 by simp
  also have "\<dots> = - 2 * g i * (g ?nx + g ((i - 1) mod N))"
    using ne1 ne2 pred_nx by (simp add: algebra_simps)
  finally show ?thesis .
qed

lemma grid_sum_split:
  fixes N :: int and h :: "int \<Rightarrow> int \<Rightarrow> int"
  shows "(\<Sum>a\<in>{0..<N}. \<Sum>b\<in>{0..<N}. h a b * (h ((a - 1) mod N) b + h a ((b - 1) mod N)))
       = (\<Sum>b\<in>{0..<N}. \<Sum>a\<in>{0..<N}. h a b * h ((a - 1) mod N) b)
       + (\<Sum>a\<in>{0..<N}. \<Sum>b\<in>{0..<N}. h a b * h a ((b - 1) mod N))"
proof -
  have "(\<Sum>a\<in>{0..<N}. \<Sum>b\<in>{0..<N}. h a b * h ((a - 1) mod N) b)
      = (\<Sum>b\<in>{0..<N}. \<Sum>a\<in>{0..<N}. h a b * h ((a - 1) mod N) b)"
    by (rule sum.swap)
  then show ?thesis
    by (simp add: distrib_left sum.distrib)
qed

lemma grid_flip:
  fixes N :: int and f :: "int \<Rightarrow> int \<Rightarrow> int"
  assumes "2 \<le> N" "0 \<le> i" "i < N" "0 \<le> j" "j < N"
  defines "f' \<equiv> \<lambda>a b. if a = i \<and> b = j then - f i j else f a b"
  shows "(\<Sum>a\<in>{0..<N}. \<Sum>b\<in>{0..<N}. f' a b * (f' ((a - 1) mod N) b + f' a ((b - 1) mod N)))
       - (\<Sum>a\<in>{0..<N}. \<Sum>b\<in>{0..<N}. f a b * (f ((a - 1) mod N) b + f a ((b - 1) mod N)))
       = - 2 * f i j *
           (f ((i + 1) mod N) j + f ((i - 1) mod N) j + f i ((j + 1) mod N) + f i ((j - 1) mod N))"
proof -
  let ?V = "- 2 * f i j * (f ((i + 1) mod N) j + f ((i - 1) mod N) j)"
  let ?H = "- 2 * f i j * (f i ((j + 1) mod N) + f i ((j - 1) mod N))"
  have col: "(\<Sum>a\<in>{0..<N}. f' a b * f' ((a - 1) mod N) b) - (\<Sum>a\<in>{0..<N}. f a b * f ((a - 1) mod N) b)
      = (if b = j then ?V else 0)" for b
  proof (cases "b = j")
    case True
    show ?thesis
      using ring_flip [OF assms(1-3), of "\<lambda>a. f a j"] True by (simp add: f'_def)
  next
    case False
    then show ?thesis by (simp add: f'_def)
  qed
  have row: "(\<Sum>b\<in>{0..<N}. f' a b * f' a ((b - 1) mod N)) - (\<Sum>b\<in>{0..<N}. f a b * f a ((b - 1) mod N))
      = (if a = i then ?H else 0)" for a
  proof (cases "a = i")
    case True
    show ?thesis
      using ring_flip [OF assms(1) assms(4,5), of "f i"] True by (simp add: f'_def)
  next
    case False
    then show ?thesis by (simp add: f'_def)
  qed
  have "(\<Sum>a\<in>{0..<N}. \<Sum>b\<in>{0..<N}. f' a b * (f' ((a - 1) mod N) b + f' a ((b - 1) mod N)))
       - (\<Sum>a\<in>{0..<N}. \<Sum>b\<in>{0..<N}. f a b * (f ((a - 1) mod N) b + f a ((b - 1) mod N)))
     = (\<Sum>b\<in>{0..<N}. (\<Sum>a\<in>{0..<N}. f' a b * f' ((a - 1) mod N) b)
                        - (\<Sum>a\<in>{0..<N}. f a b * f ((a - 1) mod N) b))
     + (\<Sum>a\<in>{0..<N}. (\<Sum>b\<in>{0..<N}. f' a b * f' a ((b - 1) mod N))
                        - (\<Sum>b\<in>{0..<N}. f a b * f a ((b - 1) mod N)))"
    by (simp only: grid_sum_split sum_subtractf)
  also have "\<dots> = (\<Sum>b\<in>{0..<N}. if b = j then ?V else 0) + (\<Sum>a\<in>{0..<N}. if a = i then ?H else 0)"
    by (simp only: col row)
  also have "\<dots> = ?V + ?H"
    using assms(2-5) by (simp add: sum.delta)
  also have "\<dots> = - 2 * f i j *
           (f ((i + 1) mod N) j + f ((i - 1) mod N) j + f i ((j + 1) mod N) + f i ((j - 1) mod N))"
    by (simp add: algebra_simps)
  finally show ?thesis .
qed

lemma energy_sum_flipped:
  assumes "square n a" "2 \<le> int n" "0 \<le> i" "i < int n" "0 \<le> j" "j < int n"
  shows "energy_sum (flipped a i j) - energy_sum a =
     - 2 * spin a i j *
       (spin a ((i + 1) mod int n) j + spin a ((i - 1) mod int n) j +
        spin a i ((j + 1) mod int n) + spin a i ((j - 1) mod int n))"
proof -
  let ?N = "int n"
  let ?f' = "\<lambda>x y. if x = i \<and> y = j then - spin a i j else spin a x y"
  have pos: "0 < ?N" using assms(2) by simp
  have fl: "spin (flipped a i j) x y = ?f' x y"
    if "0 \<le> x" "x < ?N" "0 \<le> y" "y < ?N" for x y
    using spin_flipped [OF assms(1) assms(3-6) that] .
  have "energy_sum (flipped a i j) =
      (\<Sum>x\<in>{0..<?N}. \<Sum>y\<in>{0..<?N}.
         spin (flipped a i j) x y *
           (spin (flipped a i j) ((x - 1) mod ?N) y + spin (flipped a i j) x ((y - 1) mod ?N)))"
    using assms(1) by (intro energy_sum_spin square_flipped)
  also have "\<dots> = (\<Sum>x\<in>{0..<?N}. \<Sum>y\<in>{0..<?N}.
         ?f' x y * (?f' ((x - 1) mod ?N) y + ?f' x ((y - 1) mod ?N)))"
  proof (intro sum.cong refl)
    fix x y assume "x \<in> {0..<?N}" "y \<in> {0..<?N}"
    then have r: "0 \<le> x" "x < ?N" "0 \<le> y" "y < ?N"
      by simp_all
    have m: "0 \<le> (x - 1) mod ?N" "(x - 1) mod ?N < ?N" "0 \<le> (y - 1) mod ?N" "(y - 1) mod ?N < ?N"
      using pos by simp_all
    show "spin (flipped a i j) x y *
           (spin (flipped a i j) ((x - 1) mod ?N) y + spin (flipped a i j) x ((y - 1) mod ?N))
        = ?f' x y * (?f' ((x - 1) mod ?N) y + ?f' x ((y - 1) mod ?N))"
      by (simp only: fl [OF r] fl [OF m(1,2) r(3,4)] fl [OF r(1,2) m(3,4)])
  qed
  finally have "energy_sum (flipped a i j) = (\<Sum>x\<in>{0..<?N}. \<Sum>y\<in>{0..<?N}.
         ?f' x y * (?f' ((x - 1) mod ?N) y + ?f' x ((y - 1) mod ?N)))" .
  then show ?thesis
    using grid_flip [OF assms(2-6), of "spin a"] energy_sum_spin [OF assms(1)] by simp
qed

text \<open>
  C6. The claim that \<open>delta_E\<close> is always the energy difference of the flip fails on
  the lattice of a single cell: the cell is its own neighbour four times, the formula
  gives \<open>8 J\<close>, and \<open>energy\<close> is the same before and after the flip.
\<close>

theorem delta_E_single_cell_counterexample:
  "init 1 300 all_up = Inr sim_1x1 \<and>
   delta_E sim_1x1 0 0 = Inr (8 * J) \<and>
   flipped (state sim_1x1) 0 0 = [[- 1]] \<and>
   energy (sim_1x1\<lparr>state := [[- 1]]\<rparr>) - energy sim_1x1 = 0 \<and>
   8 * J \<noteq> 0"
  by (simp add: delta_E_def getitem_def norm_index_def thenE_def flipped_def spin_def
      energy_def energy_sum_def sum2_def mul2_def add2_def roll_axis0_def roll_axis1_def
      roll_def sim_1x1_def J_def init_def choice_def all_up_def)

text \<open>
  C6, as the code has it: for every chosen cell \<open>delta_E\<close> is
  \<open>2 J spin(i, j)\<close> times the sum of the four neighbours with indices wrapped modulo
  the size; on a lattice of size at least \<open>2\<close> this is the energy of the lattice with
  the cell negated minus the energy before.
\<close>

theorem delta_E_energy_change:
  assumes "wf_sim s" "0 \<le> i" "i < size_sim s" "0 \<le> j" "j < size_sim s"
  shows "delta_E s i j = Inr (2 * J * of_int (spin (state s) i j) * of_int (neighbours s i j)) \<and>
     (2 \<le> size_sim s \<longrightarrow>
        energy (s\<lparr>state := flipped (state s) i j\<rparr>) - energy s =
          2 * J * of_int (spin (state s) i j) * of_int (neighbours s i j))"
proof -
  let ?n = "nat (size_sim s)"
  have sq: "square ?n (state s)" and n: "int ?n = size_sim s"
    using assms by (simp_all add: wf_sim_def)
  have "energy (s\<lparr>state := flipped (state s) i j\<rparr>) - energy s =
          2 * J * of_int (spin (state s) i j) * of_int (neighbours s i j)"
    if "2 \<le> size_sim s"
  proof -
    have "energy_sum (flipped (state s) i j) - energy_sum (state s) =
        - 2 * spin (state s) i j * neighbours s i j"
      using energy_sum_flipped [OF sq, of i j] that assms(2-5) n by (simp add: neighbours_def)
    then have "real_of_int (energy_sum (flipped (state s) i j)) - real_of_int (energy_sum (state s)) =
        - 2 * real_of_int (spin (state s) i j) * real_of_int (neighbours s i j)"
      by (metis of_int_diff of_int_mult of_int_minus of_int_numeral)
    then have "- J * real_of_int (energy_sum (flipped (state s) i j)) - (- J * real_of_int (energy_sum (state s))) =
        - J * (- 2 * real_of_int (spin (state s) i j) * real_of_int (neighbours s i j))"
      by (simp only: right_diff_distrib [symmetric])
    then show ?thesis
      by (simp add: energy_def)
  qed
  then show ?thesis
    using delta_E_in_range [OF assms] by simp
qed

theorem delta_E_energy_change_witness:
  "wf_sim sim_3x3 \<and> (2::int) \<le> size_sim sim_3x3 \<and>
   delta_E sim_3x3 0 1 = Inr (- 8 * J) \<and>
   flipped (state sim_3x3) 0 1 = state sim_3x3_one \<and>
   energy sim_3x3_one - energy sim_3x3 = - 8 * J"
proof -
  have r: "(0::int) \<le> 0" "0 < size_sim sim_3x3" "(0::int) \<le> 1" "1 < size_sim sim_3x3"
    and two: "2 \<le> size_sim sim_3x3"
    by (simp_all add: sim_3x3_def)
  have fl: "flipped (state sim_3x3) 0 1 = state sim_3x3_one"
    by (simp add: flipped_def spin_def sim_3x3_def sim_3x3_one_def)
  have e: "energy (sim_3x3\<lparr>state := state sim_3x3_one\<rparr>) = energy sim_3x3_one"
    by (simp add: energy_def)
  have v: "2 * J * of_int (spin (state sim_3x3) 0 1) * of_int (neighbours sim_3x3 0 1) = - 8 * J"
    by (simp add: neighbours_def spin_def sim_3x3_def)
  show ?thesis
    using delta_E_energy_change [OF wf_sim_3x3 r] two wf_sim_3x3 fl e v by simp
qed

section \<open>Aligned and alternating lattices\<close>

lemma sum_const_square:
  fixes N c :: int
  assumes "0 \<le> N"
  shows "(\<Sum>i\<in>{0..<N}. \<Sum>j\<in>{0..<N}. c) = c * N\<^sup>2"
  using assms by (simp add: power2_eq_square algebra_simps)

lemma even_mod_even:
  fixes N x :: int
  assumes "even N"
  shows "even (x mod N) \<longleftrightarrow> even x"
  using assms by (rule dvd_mod_iff)

lemma energy_sum_all_ones:
  assumes "wf_sim s" "all_ones s"
  shows "energy_sum (state s) = 2 * (size_sim s)\<^sup>2"
proof -
  let ?N = "size_sim s"
  have sq: "square (nat ?N) (state s)" and n: "int (nat ?N) = ?N" and nn: "0 \<le> ?N"
    using assms(1) by (simp_all add: wf_sim_def)
  have one: "spin (state s) x y = 1" if "0 \<le> x" "x < ?N" "0 \<le> y" "y < ?N" for x y
    using assms(2) that by (simp add: all_ones_def)
  have "energy_sum (state s) = (\<Sum>i\<in>{0..<?N}. \<Sum>j\<in>{0..<?N}.
       spin (state s) i j * (spin (state s) ((i - 1) mod ?N) j + spin (state s) i ((j - 1) mod ?N)))"
    using energy_sum_spin [OF sq] n by simp
  also have "\<dots> = (\<Sum>i\<in>{0..<?N}. \<Sum>j\<in>{0..<?N}. 2)"
  proof (intro sum.cong refl)
    fix x y assume "x \<in> {0..<?N}" "y \<in> {0..<?N}"
    then have r: "0 \<le> x" "x < ?N" "0 \<le> y" "y < ?N"
      by simp_all
    then have m: "0 \<le> (x - 1) mod ?N" "(x - 1) mod ?N < ?N" "0 \<le> (y - 1) mod ?N" "(y - 1) mod ?N < ?N"
      by simp_all
    show "spin (state s) x y * (spin (state s) ((x - 1) mod ?N) y + spin (state s) x ((y - 1) mod ?N)) = 2"
      by (simp add: one [OF r] one [OF m(1,2) r(3,4)] one [OF r(1,2) m(3,4)])
  qed
  also have "\<dots> = 2 * ?N\<^sup>2"
    using nn by (rule sum_const_square)
  finally show ?thesis .
qed

lemma energy_sum_alternating:
  assumes "wf_sim s" "even (size_sim s)" "alternating s"
  shows "energy_sum (state s) = - 2 * (size_sim s)\<^sup>2"
proof -
  let ?N = "size_sim s"
  let ?c = "\<lambda>x y :: int. if even (x + y) then 1 else - 1 :: int"
  have sq: "square (nat ?N) (state s)" and n: "int (nat ?N) = ?N" and nn: "0 \<le> ?N"
    using assms(1) by (simp_all add: wf_sim_def)
  have alt: "spin (state s) x y = ?c x y" if "0 \<le> x" "x < ?N" "0 \<le> y" "y < ?N" for x y
    using assms(3) that by (simp add: alternating_def)
  have "energy_sum (state s) = (\<Sum>i\<in>{0..<?N}. \<Sum>j\<in>{0..<?N}.
       spin (state s) i j * (spin (state s) ((i - 1) mod ?N) j + spin (state s) i ((j - 1) mod ?N)))"
    using energy_sum_spin [OF sq] n by simp
  also have "\<dots> = (\<Sum>i\<in>{0..<?N}. \<Sum>j\<in>{0..<?N}. - 2)"
  proof (intro sum.cong refl)
    fix x y assume "x \<in> {0..<?N}" "y \<in> {0..<?N}"
    then have r: "0 \<le> x" "x < ?N" "0 \<le> y" "y < ?N"
      by simp_all
    then have m: "0 \<le> (x - 1) mod ?N" "(x - 1) mod ?N < ?N" "0 \<le> (y - 1) mod ?N" "(y - 1) mod ?N < ?N"
      by simp_all
    have px: "even ((x - 1) mod ?N) \<longleftrightarrow> odd x" and py: "even ((y - 1) mod ?N) \<longleftrightarrow> odd y"
      using assms(2) by (simp_all add: even_mod_even)
    show "spin (state s) x y * (spin (state s) ((x - 1) mod ?N) y + spin (state s) x ((y - 1) mod ?N)) = - 2"
      unfolding alt [OF r] alt [OF m(1,2) r(3,4)] alt [OF r(1,2) m(3,4)]
      using px py by simp
  qed
  also have "\<dots> = - 2 * ?N\<^sup>2"
    using nn by (rule sum_const_square)
  finally show ?thesis .
qed

text \<open>
  C8. On the lattice of size \<open>N\<close> whose cells are all \<open>+1\<close> the energy is
  \<open>-J 2 N\<^sup>2\<close>; on the checkerboard lattice of an even size it is \<open>J 2 N\<^sup>2\<close>.
\<close>

theorem energy_aligned_alternating:
  "(wf_sim s \<and> all_ones s \<longrightarrow> energy s = - J * 2 * (of_int (size_sim s))\<^sup>2) \<and>
   (wf_sim s \<and> even (size_sim s) \<and> alternating s \<longrightarrow> energy s = J * 2 * (of_int (size_sim s))\<^sup>2)"
  by (simp add: energy_def energy_sum_all_ones energy_sum_alternating)

lemma init_all_up: "init n t all_up = Inr s \<Longrightarrow> all_ones s"
  by (auto simp: init_def all_ones_def spin_choice all_up_def split: if_splits)

lemma init_checkerboard: "init n t checkerboard = Inr s \<Longrightarrow> alternating s"
  by (auto simp: init_def alternating_def spin_choice checkerboard_def even_nat_iff
      nat_add_distrib [symmetric] split: if_splits)

lemma init_up_example: "init 2 300 all_up = Inr sim_up"
  by (simp add: init_def choice_def all_up_def sim_up_def upt_rec numeral_2_eq_2)

lemma init_checkerboard_example: "init 2 300 checkerboard = Inr sim_checkerboard"
  by (simp add: init_def choice_def checkerboard_def sim_checkerboard_def upt_rec numeral_2_eq_2)

theorem energy_aligned_alternating_witness:
  "wf_sim sim_up \<and> all_ones sim_up \<and> energy sim_up = - 8 * J \<and>
   wf_sim sim_checkerboard \<and> even (size_sim sim_checkerboard) \<and> alternating sim_checkerboard \<and>
   energy sim_checkerboard = 8 * J"
proof -
  have u: "wf_sim sim_up" "all_ones sim_up"
    using init_up_example by (rule wf_init, rule init_all_up)
  have c: "wf_sim sim_checkerboard" "alternating sim_checkerboard"
    using init_checkerboard_example by (rule wf_init, rule init_checkerboard)
  have e: "even (size_sim sim_checkerboard)" and n: "size_sim sim_checkerboard = 2" "size_sim sim_up = 2"
    by (simp_all add: sim_checkerboard_def sim_up_def)
  show ?thesis
    using energy_aligned_alternating [of sim_up] energy_aligned_alternating [of sim_checkerboard]
      u c e n
    by simp
qed

end
